theory Spec2Isabelle
  imports Main "HOL-Library.Word"
begin

section \<open>Read leases of the file leaser (lease/read\_lease.go)\<close>

text \<open>
  A read lease is a Go object reached through a pointer and shared between its
  clients and the file leaser that issued it. The model keeps every lease and
  every leaser in a store indexed by reference, and each method takes the world
  and returns it updated. A call is modelled as one goroutine running the
  method to completion: the mutex operations it performs are recorded, in
  program order, in the world's trace.
\<close>

subsection \<open>Data\<close>

type_synonym lease_ref = nat
type_synonym leaser_ref = nat
type_synonym byte = "8 word"
type_synonym int64 = "64 word"

text \<open>
  Go's \<open>error\<close> interface: the sentinel \<open>&RevokedError{}\<close>, or any other error
  value. A nil error is \<open>None\<close> of \<open>'e error option\<close>.
\<close>

datatype 'e error = RevokedError | OtherError 'e

datatype panic = Panic string

text \<open>
  The struct \<open>readLease\<close>. The field \<open>file\<close> (here \<open>file'\<close>) is a \<open>*os.File\<close>: \<open>None\<close> is nil.
  The mutex \<open>Mu\<close> of the lease at reference \<open>r\<close> is named \<open>LeaseMu r\<close>, the
  mutex of the leaser at \<open>l\<close> is \<open>LeaserMu l\<close>.
\<close>

record 'f readLease =
  size' :: int64
  leaser :: leaser_ref
  file' :: "'f option"

datatype mutex = LeaseMu lease_ref | LeaserMu leaser_ref

datatype event = Lock mutex | Unlock mutex

text \<open>
  Modelled from the spec: the struct \<open>fileLeaser\<close> (the Lease Pool) is not in
  read\_lease.go. The spec gives it a byte limit, the bytes in use and the LRU
  list of the tracked read leases; the most recently used lease is at the head.
  Each lease has one node of the list, so removing a lease removes every
  occurrence of its reference.
\<close>

record fileLeaser =
  byteLimit :: int
  usedBytes :: int
  lruList :: "lease_ref list"

text \<open>
  Modelled from the spec: the write lease that \<open>upgrade\<close> returns
  (\<open>ReadWriteLease\<close>) owns the file and remembers its pool.
\<close>

record 'f readWriteLease =
  rwl_leaser :: leaser_ref
  rwl_file :: "'f option"

text \<open>
  The world: the leases and the leasers by reference, the next reference that
  an allocation returns, the state \<open>os\<close> of the temporary files (the operating
  system's side of every \<open>*os.File\<close>), and the trace of mutex operations.
\<close>

record ('f, 's) world =
  leases :: "lease_ref \<Rightarrow> 'f readLease"
  nextLease :: lease_ref
  leasers :: "leaser_ref \<Rightarrow> fileLeaser"
  os :: 's
  trace :: "event list"

text \<open>
  The methods of \<open>*os.File\<close> that the lease calls belong to Go's standard
  library and are parameters of the model. Each takes the file pointer, its
  arguments and the state of the files, and returns the method's results and the
  new state; \<open>Read\<close> and \<open>ReadAt\<close> also return the contents of the buffer \<open>p\<close>
  afterwards. \<open>file_Remove\<close> deletes a temporary file (used by the pool only).
\<close>

record ('f, 's, 'e) file_ops =
  file_Read :: "'f option \<Rightarrow> byte list \<Rightarrow> 's \<Rightarrow> (int \<times> 'e error option) \<times> byte list \<times> 's"
  file_Seek :: "'f option \<Rightarrow> int64 \<Rightarrow> int \<Rightarrow> 's \<Rightarrow> (int64 \<times> 'e error option) \<times> 's"
  file_ReadAt :: "'f option \<Rightarrow> byte list \<Rightarrow> int64 \<Rightarrow> 's \<Rightarrow> (int \<times> 'e error option) \<times> byte list \<times> 's"
  file_Remove :: "'f option \<Rightarrow> 's \<Rightarrow> 's"

subsection \<open>Mutexes\<close>

definition emit :: "event \<Rightarrow> ('f, 's) world \<Rightarrow> ('f, 's) world" where
  "emit e w = w\<lparr>trace := trace w @ [e]\<rparr>"

text \<open>
  The mutexes held after each event of a sequence, starting from the held ones
  \<open>hs\<close>: \<open>exclusive hs es\<close> says that at no moment more than one is held.
\<close>

fun exclusive :: "mutex list \<Rightarrow> event list \<Rightarrow> bool" where
  "exclusive hs [] = (length hs \<le> 1)"
| "exclusive hs (Lock m # es) = (length hs \<le> 1 \<and> exclusive (m # hs) es)"
| "exclusive hs (Unlock m # es) = (length hs \<le> 1 \<and> exclusive (remove1 m hs) es)"

subsection \<open>Helpers of the lease\<close>

text \<open>\<open>func (rl *readLease) revoked() bool\<close>\<close>

definition revoked :: "'f readLease \<Rightarrow> bool" where
  "revoked rl = (file' rl = None)"

text \<open>
  \<open>func (rl *readLease) release() (file *os.File)\<close>: panics when the lease is
  revoked already, otherwise returns the file and sets the field to nil.
\<close>

definition release ::
  "lease_ref \<Rightarrow> ('f, 's) world \<Rightarrow> panic + ('f option \<times> ('f, 's) world)" where
  "release rl w =
     (if revoked (leases w rl) then Inl (Panic ''Already revoked'')
      else Inr (file' (leases w rl),
                w\<lparr>leases := (leases w)(rl := (leases w rl)\<lparr>file' := None\<rparr>)\<rparr>))"

text \<open>
  \<open>func newReadLease(size int64, leaser *fileLeaser, file *os.File) (rl *readLease)\<close>:
  allocates the struct and returns the pointer to it.
\<close>

definition newReadLease ::
  "int64 \<Rightarrow> leaser_ref \<Rightarrow> 'f option \<Rightarrow> ('f, 's) world \<Rightarrow> lease_ref \<times> ('f, 's) world" where
  "newReadLease sz lsr f w =
     (let rl = nextLease w
      in (rl, w\<lparr>leases := (leases w)(rl := \<lparr>size' = sz, leaser = lsr, file' = f\<rparr>),
                 nextLease := Suc rl\<rparr>))"

subsection \<open>The leaser's operations on a read lease\<close>

text \<open>
  Modelled from the spec: \<open>fileLeaser.promoteToMostRecent\<close> is not in
  read\_lease.go. Under the pool lock only, a lease that is still tracked moves
  to the most recently used end of the LRU list; for an untracked lease nothing
  changes.
\<close>

definition promoteToMostRecent ::
  "leaser_ref \<Rightarrow> lease_ref \<Rightarrow> ('f, 's) world \<Rightarrow> ('f, 's) world" where
  "promoteToMostRecent fl rl w =
     (let w1 = emit (Lock (LeaserMu fl)) w;
          p = leasers w1 fl;
          w2 = (if rl \<in> set (lruList p)
                then w1\<lparr>leasers := (leasers w1)(fl := p\<lparr>lruList := rl # removeAll rl (lruList p)\<rparr>)\<rparr>
                else w1)
      in emit (Unlock (LeaserMu fl)) w2)"

text \<open>
  Modelled from the spec: removing a tracked lease from the pool's accounting
  (its node leaves the LRU list, its size leaves the bytes in use).
\<close>

definition untrack :: "lease_ref \<Rightarrow> int64 \<Rightarrow> fileLeaser \<Rightarrow> fileLeaser" where
  "untrack rl sz p =
     p\<lparr>lruList := removeAll rl (lruList p), usedBytes := usedBytes p - sint sz\<rparr>"

text \<open>
  Modelled from the spec: \<open>fileLeaser.upgrade\<close> is not in read\_lease.go. Under
  the pool lock, an untracked lease fails with the revoked error. Otherwise the
  lease is removed from the LRU list and from the bytes in use, the pool lock is
  released, and then, under the lease's lock, the lease's \<open>release\<close> hands over
  its file, which is wrapped in a new write lease.
\<close>

definition upgrade ::
  "leaser_ref \<Rightarrow> lease_ref \<Rightarrow> ('f, 's) world \<Rightarrow>
     panic + (('f readWriteLease option \<times> 'e error option) \<times> ('f, 's) world)" where
  "upgrade fl rl w =
     (let w1 = emit (Lock (LeaserMu fl)) w;
          p = leasers w1 fl
      in if rl \<notin> set (lruList p)
         then Inr ((None, Some RevokedError), emit (Unlock (LeaserMu fl)) w1)
         else
           (let w2 = w1\<lparr>leasers := (leasers w1)(fl := untrack rl (size' (leases w1 rl)) p)\<rparr>;
                w3 = emit (Unlock (LeaserMu fl)) w2;
                w4 = emit (Lock (LeaseMu rl)) w3
            in case release rl w4 of
                 Inl pn \<Rightarrow> Inl pn
               | Inr (f, w5) \<Rightarrow>
                   Inr ((Some \<lparr>rwl_leaser = fl, rwl_file = f\<rparr>, None),
                        emit (Unlock (LeaseMu rl)) w5)))"

text \<open>
  Modelled from the spec: \<open>fileLeaser.revokeVoluntarily\<close> is not in
  read\_lease.go. Under the pool lock, a tracked lease is removed from the LRU
  list and from the bytes in use; then, outside the pool lock, the lease's
  \<open>release\<close> hands over its file, which is deleted. For an untracked lease
  nothing happens.
\<close>

definition revokeVoluntarily ::
  "('f, 's, 'e) file_ops \<Rightarrow> leaser_ref \<Rightarrow> lease_ref \<Rightarrow> ('f, 's) world \<Rightarrow>
     panic + ('f, 's) world" where
  "revokeVoluntarily fo fl rl w =
     (let w1 = emit (Lock (LeaserMu fl)) w;
          p = leasers w1 fl
      in if rl \<notin> set (lruList p)
         then Inr (emit (Unlock (LeaserMu fl)) w1)
         else
           (let w2 = w1\<lparr>leasers := (leasers w1)(fl := untrack rl (size' (leases w1 rl)) p)\<rparr>;
                w3 = emit (Unlock (LeaserMu fl)) w2;
                w4 = emit (Lock (LeaseMu rl)) w3
            in case release rl w4 of
                 Inl pn \<Rightarrow> Inl pn
               | Inr (f, w5) \<Rightarrow>
                   Inr ((emit (Unlock (LeaseMu rl)) w5)\<lparr>os := file_Remove fo f (os w5)\<rparr>)))"

subsection \<open>Public interface of the lease\<close>

text \<open>
  \<open>func (rl *readLease) Read(p []byte) (n int, err error)\<close>. The named results
  start at their zero values, so the revoked branch returns \<open>n = 0\<close>. The
  deferred unlock runs after the results are set.
\<close>

definition Read ::
  "('f, 's, 'e) file_ops \<Rightarrow> lease_ref \<Rightarrow> byte list \<Rightarrow> ('f, 's) world \<Rightarrow>
     (int \<times> 'e error option) \<times> byte list \<times> ('f, 's) world" where
  "Read fo rl p w =
     (let w1 = promoteToMostRecent (leaser (leases w rl)) rl w;
          w2 = emit (Lock (LeaseMu rl)) w1
      in if revoked (leases w2 rl)
         then ((0, Some RevokedError), p, emit (Unlock (LeaseMu rl)) w2)
         else
           (case file_Read fo (file' (leases w2 rl)) p (os w2) of
              ((n, err), p', s') \<Rightarrow>
                ((n, err), p', emit (Unlock (LeaseMu rl)) (w2\<lparr>os := s'\<rparr>))))"

text \<open>
  \<open>func (rl *readLease) Seek(offset int64, whence int) (off int64, err error)\<close>
\<close>

definition Seek ::
  "('f, 's, 'e) file_ops \<Rightarrow> lease_ref \<Rightarrow> int64 \<Rightarrow> int \<Rightarrow> ('f, 's) world \<Rightarrow>
     (int64 \<times> 'e error option) \<times> ('f, 's) world" where
  "Seek fo rl offset whence w =
     (let w1 = emit (Lock (LeaseMu rl)) w
      in if revoked (leases w1 rl)
         then ((0, Some RevokedError), emit (Unlock (LeaseMu rl)) w1)
         else
           (case file_Seek fo (file' (leases w1 rl)) offset whence (os w1) of
              ((off, err), s') \<Rightarrow>
                ((off, err), emit (Unlock (LeaseMu rl)) (w1\<lparr>os := s'\<rparr>))))"

text \<open>
  \<open>func (rl *readLease) ReadAt(p []byte, off int64) (n int, err error)\<close>
\<close>

definition ReadAt ::
  "('f, 's, 'e) file_ops \<Rightarrow> lease_ref \<Rightarrow> byte list \<Rightarrow> int64 \<Rightarrow> ('f, 's) world \<Rightarrow>
     (int \<times> 'e error option) \<times> byte list \<times> ('f, 's) world" where
  "ReadAt fo rl p off w =
     (let w1 = promoteToMostRecent (leaser (leases w rl)) rl w;
          w2 = emit (Lock (LeaseMu rl)) w1
      in if revoked (leases w2 rl)
         then ((0, Some RevokedError), p, emit (Unlock (LeaseMu rl)) w2)
         else
           (case file_ReadAt fo (file' (leases w2 rl)) p off (os w2) of
              ((n, err), p', s') \<Rightarrow>
                ((n, err), p', emit (Unlock (LeaseMu rl)) (w2\<lparr>os := s'\<rparr>))))"

text \<open>\<open>func (rl *readLease) Size() (size int64)\<close>: no lock is taken.\<close>

definition Size :: "lease_ref \<Rightarrow> ('f, 's) world \<Rightarrow> int64 \<times> ('f, 's) world" where
  "Size rl w = (size' (leases w rl), w)"

text \<open>\<open>func (rl *readLease) Revoked() (revoked bool)\<close>\<close>

definition Revoked :: "lease_ref \<Rightarrow> ('f, 's) world \<Rightarrow> bool \<times> ('f, 's) world" where
  "Revoked rl w =
     (let w1 = emit (Lock (LeaseMu rl)) w
      in (revoked (leases w1 rl), emit (Unlock (LeaseMu rl)) w1))"

text \<open>
  \<open>func (rl *readLease) Upgrade() (rwl ReadWriteLease, err error)\<close>: the leaser
  does the work.
\<close>

definition Upgrade ::
  "lease_ref \<Rightarrow> ('f, 's) world \<Rightarrow>
     panic + (('f readWriteLease option \<times> 'e error option) \<times> ('f, 's) world)" where
  "Upgrade rl w = upgrade (leaser (leases w rl)) rl w"

text \<open>\<open>func (rl *readLease) Revoke()\<close>: the leaser does the work.\<close>

definition Revoke ::
  "('f, 's, 'e) file_ops \<Rightarrow> lease_ref \<Rightarrow> ('f, 's) world \<Rightarrow> panic + ('f, 's) world" where
  "Revoke fo rl w = revokeVoluntarily fo (leaser (leases w rl)) rl w"

subsection \<open>Sequences of calls\<close>

text \<open>
  The calls that can reach a read lease: the seven methods of the interface and
  the internal \<open>release\<close>. \<open>step\<close> runs one call on the lease at \<open>rl\<close> and keeps
  the world it leaves, or the panic; \<open>run\<close> runs calls on any leases one after
  the other and stops at the first panic.
\<close>

datatype call =
  CallRead "byte list"
| CallSeek int64 int
| CallReadAt "byte list" int64
| CallSize
| CallRevoked
| CallUpgrade
| CallRevoke
| CallRelease

fun step ::
  "('f, 's, 'e) file_ops \<Rightarrow> lease_ref \<Rightarrow> call \<Rightarrow> ('f, 's) world \<Rightarrow> panic + ('f, 's) world" where
  "step fo rl (CallRead p) w = Inr (snd (snd (Read fo rl p w)))"
| "step fo rl (CallSeek offset whence) w = Inr (snd (Seek fo rl offset whence w))"
| "step fo rl (CallReadAt p off) w = Inr (snd (snd (ReadAt fo rl p off w)))"
| "step fo rl CallSize w = Inr (snd (Size rl w))"
| "step fo rl CallRevoked w = Inr (snd (Revoked rl w))"
| "step fo rl CallUpgrade w =
     (case (Upgrade rl w ::
              panic + (('f readWriteLease option \<times> 'e error option) \<times> ('f, 's) world)) of
        Inl pn \<Rightarrow> Inl pn
      | Inr (res, w') \<Rightarrow> Inr w')"
| "step fo rl CallRevoke w = Revoke fo rl w"
| "step fo rl CallRelease w =
     (case release rl w of Inl pn \<Rightarrow> Inl pn | Inr (f, w') \<Rightarrow> Inr w')"

fun run ::
  "('f, 's, 'e) file_ops \<Rightarrow> (lease_ref \<times> call) list \<Rightarrow> ('f, 's) world \<Rightarrow>
     panic + ('f, 's) world" where
  "run fo [] w = Inr w"
| "run fo ((r, c) # cs) w =
     (case step fo r c w of Inl pn \<Rightarrow> Inl pn | Inr w' \<Rightarrow> run fo cs w')"

text \<open>
  What \<open>revoked()\<close> of the lease at \<open>rl\<close> answers before each call of a sequence
  and after the last one (up to the first panic).
\<close>

fun history ::
  "('f, 's, 'e) file_ops \<Rightarrow> lease_ref \<Rightarrow> (lease_ref \<times> call) list \<Rightarrow> ('f, 's) world \<Rightarrow>
     bool list" where
  "history fo rl [] w = [revoked (leases w rl)]"
| "history fo rl ((r, c) # cs) w =
     revoked (leases w rl) #
       (case step fo r c w of Inl pn \<Rightarrow> [] | Inr w' \<Rightarrow> history fo rl cs w')"

text \<open>
  Modelled from the spec: the pool tracks exactly the valid leases. The lease at
  \<open>rl\<close> is in the LRU list of its leaser if and only if it is not revoked.
\<close>

definition tracked :: "lease_ref \<Rightarrow> ('f, 's) world \<Rightarrow> bool" where
  "tracked rl w = (rl \<in> set (lruList (leasers w (leaser (leases w rl)))))"

definition accounted :: "lease_ref \<Rightarrow> ('f, 's) world \<Rightarrow> bool" where
  "accounted rl w = (tracked rl w = (\<not> revoked (leases w rl)))"

subsection \<open>Example worlds\<close>

text \<open>
  Two small worlds on which the theorems below are instantiated. Files are
  numbers, the state of the files counts the reads made, \<open>Read\<close> fills the
  buffer, \<open>ReadAt\<close> fails with an I/O error. In \<open>ex_valid\<close> every lease holds
  file 7 and the pool tracks lease 1; in \<open>ex_revoked\<close> every lease is revoked
  and the pool tracks none.
\<close>

abbreviation ex_ops :: "(nat, nat, unit) file_ops" where
  "ex_ops \<equiv>
     \<lparr>file_Read = (\<lambda>f p s. ((int (length p), None), map (\<lambda>b. 1) p, Suc s)),
      file_Seek = (\<lambda>f off wh s. ((off, None), s)),
      file_ReadAt = (\<lambda>f p off s. ((0, Some (OtherError ())), p, Suc s)),
      file_Remove = (\<lambda>f s. s)\<rparr>"

abbreviation ex_valid :: "(nat, nat) world" where
  "ex_valid \<equiv>
     \<lparr>leases = (\<lambda>r. \<lparr>size' = 5, leaser = 0, file' = Some 7\<rparr>),
      nextLease = 2,
      leasers = (\<lambda>l. \<lparr>byteLimit = 100, usedBytes = 5, lruList = [1]\<rparr>),
      os = 0,
      trace = []\<rparr>"

abbreviation ex_revoked :: "(nat, nat) world" where
  "ex_revoked \<equiv>
     \<lparr>leases = (\<lambda>r. \<lparr>size' = 5, leaser = 0, file' = None\<rparr>),
      nextLease = 2,
      leasers = (\<lambda>l. \<lparr>byteLimit = 100, usedBytes = 0, lruList = []\<rparr>),
      os = 0,
      trace = []\<rparr>"

section \<open>Properties\<close>

lemmas lease_defs =
  Read_def Seek_def ReadAt_def Size_def Revoked_def Upgrade_def Revoke_def
  upgrade_def revokeVoluntarily_def promoteToMostRecent_def release_def
  emit_def revoked_def untrack_def

subsection \<open>What every call preserves\<close>

lemma step_revoked:
  "step fo r c w = Inr w' \<Longrightarrow> revoked (leases w rl) \<Longrightarrow> revoked (leases w' rl)"
  by (cases c) (auto simp: lease_defs Let_def split: if_splits prod.splits sum.splits)

lemma step_size:
  "step fo r c w = Inr w' \<Longrightarrow> size' (leases w' rl) = size' (leases w rl)"
  by (cases c) (auto simp: lease_defs Let_def split: if_splits prod.splits sum.splits)

lemma run_Cons_Inr:
  assumes "run fo (a # cs) w = Inr w'"
  obtains w1 where "step fo (fst a) (snd a) w = Inr w1" and "run fo cs w1 = Inr w'"
  using assms by (cases a) (auto split: sum.splits)

lemma run_revoked:
  "run fo cs w = Inr w' \<Longrightarrow> revoked (leases w rl) \<Longrightarrow> revoked (leases w' rl)"
proof (induction cs arbitrary: w)
  case Nil
  then show ?case by simp
next
  case (Cons a cs)
  from Cons.prems(1) obtain w1 where
    s: "step fo (fst a) (snd a) w = Inr w1" and r: "run fo cs w1 = Inr w'"
    by (rule run_Cons_Inr)
  from step_revoked [OF s Cons.prems(2)] have "revoked (leases w1 rl)" .
  with Cons.IH [OF r] show ?case .
qed

lemma run_size:
  "run fo cs w = Inr w' \<Longrightarrow> size' (leases w' rl) = size' (leases w rl)"
proof (induction cs arbitrary: w)
  case Nil
  then show ?case by simp
next
  case (Cons a cs)
  from Cons.prems obtain w1 where
    s: "step fo (fst a) (snd a) w = Inr w1" and r: "run fo cs w1 = Inr w'"
    by (rule run_Cons_Inr)
  from step_size [OF s] Cons.IH [OF r] show ?case by simp
qed

lemma history_revoked:
  "revoked (leases w rl) \<Longrightarrow>
     history fo rl cs w = replicate (length (history fo rl cs w)) True"
proof (induction cs arbitrary: w)
  case Nil
  then show ?case by simp
next
  case (Cons a cs)
  obtain r c where a: "a = (r, c)" by (cases a)
  show ?case
  proof (cases "step fo r c w")
    case (Inl pn)
    with Cons.prems a show ?thesis by simp
  next
    case (Inr w1)
    from step_revoked [OF Inr Cons.prems] have "revoked (leases w1 rl)" .
    from Cons.IH [OF this] Cons.prems a Inr show ?thesis by simp
  qed
qed

lemma history_shape:
  "\<exists>m n. history fo rl cs w = replicate m False @ replicate n True"
proof (induction cs arbitrary: w)
  case Nil
  show ?case
  proof (cases "revoked (leases w rl)")
    case True
    then have "history fo rl [] w = replicate 0 False @ replicate 1 True" by simp
    then show ?thesis by blast
  next
    case False
    then have "history fo rl [] w = replicate 1 False @ replicate 0 True" by simp
    then show ?thesis by blast
  qed
next
  case (Cons a cs)
  show ?case
  proof (cases "revoked (leases w rl)")
    case True
    from history_revoked [OF True, of fo "a # cs"]
    have "history fo rl (a # cs) w =
            replicate 0 False @ replicate (length (history fo rl (a # cs) w)) True"
      by simp
    then show ?thesis by blast
  next
    case False
    obtain r c where a: "a = (r, c)" by (cases a)
    show ?thesis
    proof (cases "step fo r c w")
      case (Inl pn)
      with False a have "history fo rl (a # cs) w = replicate 1 False @ replicate 0 True"
        by simp
      then show ?thesis by blast
    next
      case (Inr w1)
      from Cons.IH [of w1] obtain m n where
        "history fo rl cs w1 = replicate m False @ replicate n True" by blast
      with False a Inr
      have "history fo rl (a # cs) w = replicate (Suc m) False @ replicate n True"
        by simp
      then show ?thesis by blast
    qed
  qed
qed

text \<open>
  The public calls keep the pool's tracking in step with the lease: only a
  direct \<open>release\<close>, which the pool alone makes, revokes a lease that is still
  in the LRU list.
\<close>

lemma step_accounted:
  "step fo r c w = Inr w' \<Longrightarrow> c \<noteq> CallRelease \<Longrightarrow> accounted rl w \<Longrightarrow> accounted rl w'"
  by (cases c)
     (auto simp: accounted_def tracked_def lease_defs Let_def
           split: if_splits prod.splits sum.splits)

subsection \<open>Revoked leases\<close>

text \<open>
  Claim C1. Once the lease at \<open>rl\<close> is revoked (its file is nil), then after any
  further calls on any leases, \<open>Read\<close>, \<open>Seek\<close> and \<open>ReadAt\<close> on it return the
  error \<open>RevokedError\<close>. They perform no file I/O: the state of the files is the
  one before the call, and the outcome is the same whatever the file methods
  would do.
\<close>

theorem revoked_lease_fails_with_RevokedError:
  assumes "revoked (leases w rl)" and "run fo cs w = Inr w'"
  shows "snd (fst (Read fo rl p w')) = Some RevokedError
       \<and> snd (fst (Seek fo rl offset whence w')) = Some RevokedError
       \<and> snd (fst (ReadAt fo rl p off w')) = Some RevokedError
       \<and> os (snd (snd (Read fo rl p w'))) = os w'
       \<and> os (snd (Seek fo rl offset whence w')) = os w'
       \<and> os (snd (snd (ReadAt fo rl p off w'))) = os w'
       \<and> Read fo rl p w' = Read fo2 rl p w'
       \<and> Seek fo rl offset whence w' = Seek fo2 rl offset whence w'
       \<and> ReadAt fo rl p off w' = ReadAt fo2 rl p off w'"
proof -
  from run_revoked [OF assms(2) assms(1)] have "revoked (leases w' rl)" .
  then show ?thesis
    by (simp add: lease_defs Let_def)
qed

theorem revoked_lease_fails_with_RevokedError_witness:
  "revoked (leases ex_revoked 1)
   \<and> run ex_ops [(1, CallRevoked)] ex_revoked =
       Inr (ex_revoked\<lparr>trace := [Lock (LeaseMu 1), Unlock (LeaseMu 1)]\<rparr>)
   \<and> snd (fst (Read ex_ops 1 [0, 0]
                 (ex_revoked\<lparr>trace := [Lock (LeaseMu 1), Unlock (LeaseMu 1)]\<rparr>))) =
       Some RevokedError
   \<and> snd (fst (Seek ex_ops 1 4 0
                 (ex_revoked\<lparr>trace := [Lock (LeaseMu 1), Unlock (LeaseMu 1)]\<rparr>))) =
       Some RevokedError
   \<and> snd (fst (ReadAt ex_ops 1 [0, 0] 4
                 (ex_revoked\<lparr>trace := [Lock (LeaseMu 1), Unlock (LeaseMu 1)]\<rparr>))) =
       Some RevokedError"
proof -
  have h1: "revoked (leases ex_revoked 1)"
    by (simp add: revoked_def)
  have h2: "run ex_ops [(1, CallRevoked)] ex_revoked =
              Inr (ex_revoked\<lparr>trace := [Lock (LeaseMu 1), Unlock (LeaseMu 1)]\<rparr>)"
    by (simp add: Revoked_def emit_def Let_def)
  from revoked_lease_fails_with_RevokedError
         [OF h1 h2, where p = "[0, 0]" and offset = 4 and whence = 0 and off = 4 and ?fo2.0 = ex_ops]
       h1 h2
  show ?thesis by simp
qed

text \<open>
  Claim C2. A lease is revoked exactly when it holds no file, so it is in one
  of the two states and never in both. Along any sequence of calls the answers
  of \<open>revoked()\<close> are a run of False followed by a run of True: the lease goes
  from valid to revoked at most once and never back. In particular, once
  \<open>Revoked()\<close> has returned true it returns true after any further calls.
\<close>

theorem revoked_is_monotonic:
  "revoked (leases w rl) \<noteq> (\<exists>f. file' (leases w rl) = Some f)
   \<and> fst (Revoked rl w) = revoked (leases w rl)
   \<and> (\<exists>m n. history fo rl cs w = replicate m False @ replicate n True)
   \<and> (fst (Revoked rl w) \<longrightarrow> run fo cs w = Inr w' \<longrightarrow> fst (Revoked rl w'))"
proof -
  have a: "revoked (leases w rl) \<noteq> (\<exists>f. file' (leases w rl) = Some f)"
    by (simp add: revoked_def)
  have b: "fst (Revoked rl v) = revoked (leases v rl)" for v :: "('a, 'b) world"
    by (simp add: Revoked_def emit_def Let_def)
  from a b history_shape [of fo rl cs w] run_revoked [of fo cs w w' rl]
  show ?thesis by blast
qed

theorem revoked_is_monotonic_witness:
  "fst (Revoked 1 ex_revoked)
   \<and> (\<exists>w'. run ex_ops [(1, CallUpgrade), (1, CallRead [0])] ex_revoked = Inr w'
          \<and> fst (Revoked 1 w'))
   \<and> history ex_ops 1 [(1, CallRead [0]), (1, CallRevoke), (1, CallSeek 0 0)] ex_valid =
       [False, False, True, True]"
proof -
  have h1: "fst (Revoked 1 ex_revoked)"
    by (simp add: Revoked_def emit_def revoked_def Let_def)
  obtain w' where h2: "run ex_ops [(1, CallUpgrade), (1, CallRead [0])] ex_revoked = Inr w'"
    by (simp add: lease_defs Let_def)
  have h3: "history ex_ops 1 [(1, CallRead [0]), (1, CallRevoke), (1, CallSeek 0 0)] ex_valid =
              [False, False, True, True]"
    by (simp add: lease_defs Let_def)
  from revoked_is_monotonic [of ex_revoked 1 ex_ops "[(1, CallUpgrade), (1, CallRead [0])]" w']
       h1 h2 h3
  show ?thesis by simp
qed

text \<open>
  Claim C3. On a valid lease \<open>release\<close> returns the very file the lease held and
  leaves the lease revoked; nothing else changes, and in particular the state of
  the files is untouched, so the file is not deleted. On a revoked lease it
  panics with "Already revoked".
\<close>

theorem release_hands_over_file:
  "(file' (leases w rl) = Some f \<longrightarrow>
      (\<exists>w'. release rl w = Inr (Some f, w')
          \<and> revoked (leases w' rl)
          \<and> size' (leases w' rl) = size' (leases w rl)
          \<and> leaser (leases w' rl) = leaser (leases w rl)
          \<and> (\<forall>r. r \<noteq> rl \<longrightarrow> leases w' r = leases w r)
          \<and> os w' = os w \<and> leasers w' = leasers w \<and> trace w' = trace w))
   \<and> (revoked (leases w rl) \<longrightarrow> release rl w = Inl (Panic ''Already revoked''))"
  by (simp add: release_def revoked_def)

theorem release_hands_over_file_witness:
  "file' (leases ex_valid 1) = Some 7
   \<and> (\<exists>w'. release 1 ex_valid = Inr (Some 7, w') \<and> revoked (leases w' 1) \<and> os w' = 0)
   \<and> revoked (leases ex_revoked 1)
   \<and> release 1 ex_revoked = Inl (Panic ''Already revoked'')"
proof -
  have h1: "file' (leases ex_valid 1) = Some 7" by simp
  have h2: "revoked (leases ex_revoked 1)" by (simp add: revoked_def)
  from release_hands_over_file [of ex_valid 1 7] release_hands_over_file [of ex_revoked 1 7]
       h1 h2
  show ?thesis by auto
qed

subsection \<open>Size\<close>

text \<open>
  Claim C4. \<open>Size\<close> leaves the whole world as it is, the trace included, so it
  takes no lock. It returns the size given to \<open>newReadLease\<close>, and the same
  size after any sequence of calls, among them those that revoke the lease.
\<close>

theorem Size_is_fixed:
  "snd (Size rl w) = w
   \<and> (newReadLease sz lsr f w0 = (rl, w) \<longrightarrow> run fo cs w = Inr w' \<longrightarrow>
        fst (Size rl w) = sz \<and> fst (Size rl w') = sz)
   \<and> (run fo cs w = Inr w' \<longrightarrow> fst (Size rl w') = fst (Size rl w))"
  using run_size [of fo cs w w' rl]
  by (auto simp: Size_def newReadLease_def Let_def)

theorem Size_is_fixed_witness:
  "\<exists>w w'. newReadLease 9 0 (Some 3) ex_revoked = (2, w)
        \<and> run ex_ops [(2, CallRead [0]), (2, CallRelease), (2, CallSeek 0 0)] w = Inr w'
        \<and> \<not> revoked (leases w 2) \<and> revoked (leases w' 2)
        \<and> fst (Size 2 w) = 9 \<and> fst (Size 2 w') = 9"
proof -
  let ?w = "ex_revoked\<lparr>leases := (leases ex_revoked)(2 := \<lparr>size' = 9, leaser = 0, file' = Some 3\<rparr>),
                       nextLease := 3\<rparr>"
  have h1: "newReadLease 9 0 (Some 3) ex_revoked = (2, ?w)"
    by (simp add: newReadLease_def Let_def)
  have v: "\<not> revoked (leases ?w 2)"
    by (simp add: revoked_def)
  obtain w' where h2: "run ex_ops [(2, CallRead [0]), (2, CallRelease), (2, CallSeek 0 0)] ?w = Inr w'"
    and r: "revoked (leases w' 2)"
    by (simp add: lease_defs Let_def)
  from Size_is_fixed [of 2 ?w 9 0 "Some 3" ex_revoked ex_ops
         "[(2, CallRead [0]), (2, CallRelease), (2, CallSeek 0 0)]" w'] h1 h2 v r
  show ?thesis by blast
qed

subsection \<open>Upgrade\<close>

text \<open>
  Claim C5. Let the pool track the lease at \<open>rl\<close> exactly when it is valid.
  \<open>Upgrade\<close> on a revoked lease fails with \<open>RevokedError\<close> and changes neither
  the leases, nor the pool, nor the files. \<open>Upgrade\<close> on a valid lease returns
  a write lease that owns the file the read lease held, without deleting it,
  and leaves the read lease revoked and untracked; a second \<open>Upgrade\<close> then
  fails with \<open>RevokedError\<close>.
\<close>

theorem Upgrade_succeeds_once:
  assumes "accounted rl w"
  shows "(revoked (leases w rl) \<longrightarrow>
            (\<exists>w'. Upgrade rl w = Inr ((None, Some RevokedError), w')
                \<and> leases w' = leases w \<and> leasers w' = leasers w \<and> os w' = os w))
       \<and> (\<not> revoked (leases w rl) \<longrightarrow>
            (\<exists>w' w''. Upgrade rl w =
                     Inr ((Some \<lparr>rwl_leaser = leaser (leases w rl),
                                 rwl_file = file' (leases w rl)\<rparr>, None), w')
                \<and> revoked (leases w' rl) \<and> os w' = os w \<and> accounted rl w'
                \<and> Upgrade rl w' = Inr ((None, Some RevokedError), w'')))"
  using assms
  by (auto simp: accounted_def tracked_def lease_defs Let_def)

theorem Upgrade_succeeds_once_witness:
  "accounted 1 ex_revoked \<and> revoked (leases ex_revoked 1)
   \<and> (\<exists>w'. Upgrade 1 ex_revoked = Inr ((None, Some (RevokedError :: unit error)), w')
          \<and> leases w' = leases ex_revoked)
   \<and> accounted 1 ex_valid \<and> \<not> revoked (leases ex_valid 1)
   \<and> (\<exists>w' w''. Upgrade 1 ex_valid =
                  Inr ((Some \<lparr>rwl_leaser = 0, rwl_file = Some 7\<rparr>, None :: unit error option), w')
          \<and> revoked (leases w' 1)
          \<and> Upgrade 1 w' = Inr ((None, Some (RevokedError :: unit error)), w''))"
proof -
  have h1: "accounted 1 ex_revoked" "revoked (leases ex_revoked 1)"
    by (simp_all add: accounted_def tracked_def revoked_def)
  have h2: "accounted 1 ex_valid" "\<not> revoked (leases ex_valid 1)"
    by (simp_all add: accounted_def tracked_def revoked_def)
  have e: "leaser (leases ex_valid 1) = 0" "file' (leases ex_valid 1) = Some 7"
    by simp_all
  from Upgrade_succeeds_once [OF h1(1), where ?'c = unit]
       Upgrade_succeeds_once [OF h2(1), where ?'c = unit] h1 h2
  show ?thesis unfolding e by blast
qed

subsection \<open>Locks and the pool\<close>

text \<open>
  Claim C6. In \<open>Read\<close> and in \<open>ReadAt\<close> the call of \<open>promoteToMostRecent\<close> comes
  first: the mutex events of the call are those of the promotion (the pool's
  lock taken and released) followed by the lease's lock taken and released, and
  the pool is left as the promotion left it. At no moment of the call are two
  mutexes held.
\<close>

theorem promotion_precedes_lease_lock:
  "trace (promoteToMostRecent (leaser (leases w rl)) rl w) =
      trace w @ [Lock (LeaserMu (leaser (leases w rl))), Unlock (LeaserMu (leaser (leases w rl)))]
   \<and> trace (snd (snd (Read fo rl p w))) =
      trace (promoteToMostRecent (leaser (leases w rl)) rl w) @
        [Lock (LeaseMu rl), Unlock (LeaseMu rl)]
   \<and> trace (snd (snd (ReadAt fo rl p off w))) =
      trace (promoteToMostRecent (leaser (leases w rl)) rl w) @
        [Lock (LeaseMu rl), Unlock (LeaseMu rl)]
   \<and> leasers (snd (snd (Read fo rl p w))) =
      leasers (promoteToMostRecent (leaser (leases w rl)) rl w)
   \<and> leasers (snd (snd (ReadAt fo rl p off w))) =
      leasers (promoteToMostRecent (leaser (leases w rl)) rl w)
   \<and> (\<exists>es. trace (snd (snd (Read fo rl p w))) = trace w @ es \<and> exclusive [] es)
   \<and> (\<exists>es. trace (snd (snd (ReadAt fo rl p off w))) = trace w @ es \<and> exclusive [] es)"
  by (auto simp: lease_defs Let_def split: prod.splits)

theorem promotion_precedes_lease_lock_witness:
  "trace (snd (snd (Read ex_ops 1 [0, 0] ex_valid))) =
      [Lock (LeaserMu 0), Unlock (LeaserMu 0), Lock (LeaseMu 1), Unlock (LeaseMu 1)]
   \<and> trace (snd (snd (ReadAt ex_ops 1 [0, 0] 4 ex_valid))) =
      [Lock (LeaserMu 0), Unlock (LeaserMu 0), Lock (LeaseMu 1), Unlock (LeaseMu 1)]
   \<and> exclusive [] [Lock (LeaserMu 0), Unlock (LeaserMu 0), Lock (LeaseMu 1), Unlock (LeaseMu 1)]
   \<and> \<not> exclusive [] [Lock (LeaseMu 1), Lock (LeaserMu 0), Unlock (LeaserMu 0), Unlock (LeaseMu 1)]"
proof -
  have e: "leaser (leases ex_valid 1) = 0" "trace ex_valid = []"
    by simp_all
  from promotion_precedes_lease_lock [of ex_valid 1 ex_ops "[0, 0]" 4]
  show ?thesis unfolding e by simp
qed

text \<open>
  Claim C7. \<open>Seek\<close> does not reach the pool: the leasers, and with them the LRU
  order, are as before, and the only mutex events are the lease's own lock
  taken and released. Its revoked check is that of \<open>Read\<close> and \<open>ReadAt\<close>: on a
  revoked lease all three return \<open>RevokedError\<close>, on a valid one \<open>Seek\<close> returns
  what the file's \<open>Seek\<close> returns.
\<close>

theorem Seek_does_not_promote:
  "leasers (snd (Seek fo rl offset whence w)) = leasers w
   \<and> trace (snd (Seek fo rl offset whence w)) = trace w @ [Lock (LeaseMu rl), Unlock (LeaseMu rl)]
   \<and> (revoked (leases w rl) \<longrightarrow>
        fst (Seek fo rl offset whence w) = (0, Some RevokedError)
        \<and> snd (fst (Read fo rl p w)) = Some RevokedError
        \<and> snd (fst (ReadAt fo rl p off w)) = Some RevokedError)
   \<and> (\<not> revoked (leases w rl) \<longrightarrow>
        fst (Seek fo rl offset whence w) =
          fst (file_Seek fo (file' (leases w rl)) offset whence (os w)))"
  by (auto simp: lease_defs Let_def split: prod.splits)

theorem Seek_does_not_promote_witness:
  "revoked (leases ex_revoked 1)
   \<and> fst (Seek ex_ops 1 4 0 ex_revoked) = (0, Some RevokedError)
   \<and> \<not> revoked (leases ex_valid 1)
   \<and> fst (Seek ex_ops 1 4 0 ex_valid) = (4, None)
   \<and> leasers (snd (Seek ex_ops 1 4 0 ex_valid)) = leasers ex_valid
   \<and> trace (snd (Seek ex_ops 1 4 0 ex_valid)) = [Lock (LeaseMu 1), Unlock (LeaseMu 1)]"
proof -
  have h1: "revoked (leases ex_revoked 1)"
    by (simp add: revoked_def)
  have h2: "\<not> revoked (leases ex_valid 1)"
    by (simp add: revoked_def)
  from Seek_does_not_promote [of ex_ops 1 4 0 ex_revoked "[]" 0]
       Seek_does_not_promote [of ex_ops 1 4 0 ex_valid "[]" 0] h1 h2
  show ?thesis by simp
qed

subsection \<open>Results of the reads\<close>

text \<open>
  Claim C8. On a valid lease \<open>Read\<close>, \<open>Seek\<close> and \<open>ReadAt\<close> call the file's
  method of the same name once, on the file the lease holds and with the
  arguments given, and return its results unchanged: the count or offset, the
  error, and the buffer; the files are left in the state that one call left.
\<close>

theorem valid_lease_delegates_verbatim:
  assumes "file' (leases w rl) = Some f"
  shows "fst (Read fo rl p w) = fst (file_Read fo (Some f) p (os w))
       \<and> fst (snd (Read fo rl p w)) = fst (snd (file_Read fo (Some f) p (os w)))
       \<and> os (snd (snd (Read fo rl p w))) = snd (snd (file_Read fo (Some f) p (os w)))
       \<and> fst (Seek fo rl offset whence w) = fst (file_Seek fo (Some f) offset whence (os w))
       \<and> os (snd (Seek fo rl offset whence w)) = snd (file_Seek fo (Some f) offset whence (os w))
       \<and> fst (ReadAt fo rl p off w) = fst (file_ReadAt fo (Some f) p off (os w))
       \<and> fst (snd (ReadAt fo rl p off w)) = fst (snd (file_ReadAt fo (Some f) p off (os w)))
       \<and> os (snd (snd (ReadAt fo rl p off w))) = snd (snd (file_ReadAt fo (Some f) p off (os w)))"
  using assms
  by (auto simp: lease_defs Let_def split: prod.splits)

theorem valid_lease_delegates_verbatim_witness:
  "file' (leases ex_valid 1) = Some 7
   \<and> fst (Read ex_ops 1 [0, 0] ex_valid) = (2, None)
   \<and> fst (snd (Read ex_ops 1 [0, 0] ex_valid)) = [1, 1]
   \<and> os (snd (snd (Read ex_ops 1 [0, 0] ex_valid))) = 1
   \<and> fst (Seek ex_ops 1 4 0 ex_valid) = (4, None)
   \<and> fst (ReadAt ex_ops 1 [0, 0] 4 ex_valid) = (0, Some (OtherError ()))"
proof -
  have h: "file' (leases ex_valid 1) = Some 7"
    by simp
  from valid_lease_delegates_verbatim
         [OF h, where fo = ex_ops and p = "[0, 0]" and offset = 4 and whence = 0 and off = 4] h
  show ?thesis by simp
qed

text \<open>
  Claim C9. When \<open>Read\<close>, \<open>ReadAt\<close> or \<open>Seek\<close> fails on a revoked lease, the
  value returned beside \<open>RevokedError\<close> is zero, and every lease, the one
  called included, is as it was before the call.
\<close>

theorem revoked_failure_returns_zero:
  assumes "revoked (leases w rl)"
  shows "fst (Read fo rl p w) = (0, Some RevokedError)
       \<and> fst (ReadAt fo rl p off w) = (0, Some RevokedError)
       \<and> fst (Seek fo rl offset whence w) = (0, Some RevokedError)
       \<and> leases (snd (snd (Read fo rl p w))) = leases w
       \<and> leases (snd (snd (ReadAt fo rl p off w))) = leases w
       \<and> leases (snd (Seek fo rl offset whence w)) = leases w"
  using assms
  by (auto simp: lease_defs Let_def split: prod.splits)

theorem revoked_failure_returns_zero_witness:
  "revoked (leases ex_revoked 1)
   \<and> fst (Read ex_ops 1 [0, 0] ex_revoked) = (0, Some RevokedError)
   \<and> fst (ReadAt ex_ops 1 [0, 0] 4 ex_revoked) = (0, Some RevokedError)
   \<and> fst (Seek ex_ops 1 4 0 ex_revoked) = (0, Some RevokedError)
   \<and> leases (snd (snd (Read ex_ops 1 [0, 0] ex_revoked))) 1 =
       \<lparr>size' = 5, leaser = 0, file' = None\<rparr>"
proof -
  have h: "revoked (leases ex_revoked 1)"
    by (simp add: revoked_def)
  from revoked_failure_returns_zero
         [OF h, where fo = ex_ops and p = "[0, 0]" and offset = 4 and whence = 0 and off = 4] h
  show ?thesis by simp
qed

subsection \<open>Construction\<close>

text \<open>
  Claim C10. For every size, leaser and non-nil file, the lease that
  \<open>newReadLease\<close> returns is valid (\<open>Revoked()\<close> and \<open>revoked()\<close> answer false)
  and its \<open>Size()\<close> is the size given.
\<close>

theorem newReadLease_is_valid:
  "(case newReadLease sz lsr (Some f) w of
      (rl, w') \<Rightarrow>
        \<not> fst (Revoked rl w') \<and> \<not> revoked (leases w' rl) \<and> fst (Size rl w') = sz)"
  by (simp add: newReadLease_def Revoked_def Size_def revoked_def emit_def Let_def)

theorem newReadLease_is_valid_witness:
  "fst (newReadLease 9 0 (Some 3) ex_revoked) = 2
   \<and> \<not> fst (Revoked 2 (snd (newReadLease 9 0 (Some 3) ex_revoked)))
   \<and> fst (Size 2 (snd (newReadLease 9 0 (Some 3) ex_revoked))) = 9"
proof -
  have e: "fst (newReadLease 9 0 (Some (3::nat)) ex_revoked) = 2"
    by (simp add: newReadLease_def Let_def)
  from newReadLease_is_valid [of 9 0 3 ex_revoked] e
  show ?thesis by (simp add: case_prod_beta)
qed

end
